theory Spec2Isabelle
  imports Main "HOL-Library.Sublist"
begin

section \<open>Python values, exceptions and the configuration\<close>

text \<open>
  The values that reach \<^verbatim>\<open>chat\<close> and \<^verbatim>\<open>google_search\<close>: what the UI hands over as
  history entries and what \<^verbatim>\<open>json.loads\<close> and \<^verbatim>\<open>response.json()\<close> produce. A dict is an
  association list in insertion order whose first binding of a key is the one looked up;
  its keys are strings, as in every dict the source builds or decodes. Floats are left out.
\<close>

datatype pyval =
    PNone
  | PBool bool
  | PInt int
  | PStr string
  | PList "pyval list"
  | PTuple "pyval list"
  | PDict "(string \<times> pyval) list"

text \<open>
  Instances of \<^verbatim>\<open>Exception\<close>. The three named classes are the ones the interpreter
  raises in the modelled code; \<open>Raised\<close> is an exception thrown inside a library call
  (the completion client, \<^verbatim>\<open>requests\<close>, \<^verbatim>\<open>json\<close>), tagged by the library.
\<close>

datatype exn = IndexError | TypeError | AttributeError | Raised string

text \<open>Python's truth value of an object, as \<^verbatim>\<open>if x:\<close> and \<^verbatim>\<open>and\<close> test it.\<close>

fun truthy :: "pyval \<Rightarrow> bool" where
  "truthy PNone = False"
| "truthy (PBool b) = b"
| "truthy (PInt i) = (i \<noteq> 0)"
| "truthy (PStr s) = (s \<noteq> [])"
| "truthy (PList xs) = (xs \<noteq> [])"
| "truthy (PTuple xs) = (xs \<noteq> [])"
| "truthy (PDict d) = (d \<noteq> [])"

text \<open>
  The module-level configuration, lines 12 to 17 and 76: \<^verbatim>\<open>os.getenv\<close> gives a string or
  \<^verbatim>\<open>None\<close>, \<^verbatim>\<open>load_context()\<close> always a string.
\<close>

record config =
  SERPER_API_KEY :: "string option"
  USER_NAME :: "string option"
  USER_ROLE :: "string option"
  MODEL_NAME :: "string option"
  GLOBAL_CONTEXT :: string

text \<open>How an f-string renders a value that is a string or \<^verbatim>\<open>None\<close>.\<close>

fun fmt :: "string option \<Rightarrow> string" where
  "fmt None = ''None''"
| "fmt (Some s) = s"

section \<open>The system prompt\<close>

definition system_prompt :: "config \<Rightarrow> string" where
  "system_prompt cfg =
     ''\<newline>    You are acting as '' @ fmt (USER_NAME cfg) @ '', a '' @ fmt (USER_ROLE cfg) @
     ''.\<newline>    \<newline>    ## DUAL GOAL\<newline>    1. **Candidate:** Answer impressively using the RESUME CONTEXT.\<newline>    2. **Coach:** After the answer, explain WHY it is good.\<newline>\<newline>    ## INSTRUCTIONS\<newline>    - Speak in First Person (\"I\", \"Me\").\<newline>    - Use the STAR Method (Situation, Task, Action, Result).\<newline>    - If asked about a company, use 'google_search' first.\<newline>    - End with a 'Coach's Note'.\<newline>\<newline>    ## RESUME CONTEXT\<newline>    '' @
     GLOBAL_CONTEXT cfg @ ''\<newline>    ''"

section \<open>Messages, completions and the outside world\<close>

text \<open>
  A tool call of a completion: \<^verbatim>\<open>tool_call.id\<close>, \<^verbatim>\<open>tool_call.function.name\<close> and
  \<^verbatim>\<open>tool_call.function.arguments\<close>. The message of a choice has a content, which may be
  \<^verbatim>\<open>None\<close>, and its tool calls, a list or \<^verbatim>\<open>None\<close>.
\<close>

record tool_call =
  tc_id :: string
  fn_name :: string
  fn_arguments :: string

record chat_message =
  content :: "string option"
  tool_calls :: "tool_call list option"

text \<open>
  The list \<^verbatim>\<open>messages\<close> holds dicts (built by \<^verbatim>\<open>chat\<close> or taken from the history as they
  are) and, after line 126, the message object of the first completion.
\<close>

datatype message = Dict_msg "(string \<times> pyval) list" | Obj_msg chat_message

text \<open>
  The keyword arguments of \<^verbatim>\<open>client.chat.completions.create\<close>; \<open>req_tools = None\<close> is a
  call without the \<^verbatim>\<open>tools\<close> argument.
\<close>

record request =
  req_model :: "string option"
  req_messages :: "message list"
  req_tools :: "pyval option"

text \<open>A response of \<^verbatim>\<open>requests.post\<close>: its status, and what \<^verbatim>\<open>response.json()\<close> does.\<close>

record http_response =
  status_code :: int
  json :: "exn + pyval"

text \<open>
  Everything \<^verbatim>\<open>chat\<close> calls outside this file. \<open>completions_create\<close> returns the
  messages of \<^verbatim>\<open>response.choices\<close> in order, or raises. \<open>requests_post\<close> takes the url,
  the headers and the body. \<open>json_dumps\<close> is total: the values of \<^typ>\<open>pyval\<close> are all
  serialisable. \<open>exn_str\<close> is \<^verbatim>\<open>str(e)\<close>.
\<close>

record env =
  completions_create :: "request \<Rightarrow> exn + chat_message list"
  requests_post :: "string \<Rightarrow> (string \<times> string option) list \<Rightarrow> string \<Rightarrow> exn + http_response"
  json_loads :: "string \<Rightarrow> exn + pyval"
  json_dumps :: "pyval \<Rightarrow> string"
  exn_str :: "exn \<Rightarrow> string"

text \<open>
  What a turn does to the outside world, in order: the completion requests it issues and
  the searches it runs. Writes to standard output are not recorded.
\<close>

datatype event = Completion request | Search pyval

section \<open>The search tool\<close>

text \<open>\<^verbatim>\<open>x.get(key, default)\<close>: only a dict has the method.\<close>

fun py_get :: "pyval \<Rightarrow> string \<Rightarrow> pyval \<Rightarrow> exn + pyval" where
  "py_get (PDict d) k dflt = Inr (case map_of d k of None \<Rightarrow> dflt | Some v \<Rightarrow> v)"
| "py_get _ k dflt = Inl AttributeError"

text \<open>
  \<^verbatim>\<open>x[:2]\<close>: sequences are cut to their first two items; a dict, a number and \<^verbatim>\<open>None\<close>
  raise (a dict raises \<^verbatim>\<open>TypeError\<close> before Python 3.12 and \<^verbatim>\<open>KeyError\<close> from then on;
  only that it raises is observable here).
\<close>

fun py_slice2 :: "pyval \<Rightarrow> exn + pyval" where
  "py_slice2 (PList xs) = Inr (PList (take 2 xs))"
| "py_slice2 (PTuple xs) = Inr (PTuple (take 2 xs))"
| "py_slice2 (PStr s) = Inr (PStr (take 2 s))"
| "py_slice2 _ = Inl TypeError"

definition search_url :: string where
  "search_url = ''https://google.serper.dev/search''"

definition search_headers :: "config \<Rightarrow> (string \<times> string option) list" where
  "search_headers cfg =
     [(''X-API-KEY'', SERPER_API_KEY cfg), (''Content-Type'', Some ''application/json'')]"

text \<open>Lines 32 to 34, the body of the \<^verbatim>\<open>try\<close>.\<close>

definition search_try :: "env \<Rightarrow> config \<Rightarrow> string \<Rightarrow> exn + string" where
  "search_try ev cfg payload =
     (case requests_post ev search_url (search_headers cfg) payload of
        Inl e \<Rightarrow> Inl e
      | Inr response \<Rightarrow>
          (case json response of
             Inl e \<Rightarrow> Inl e
           | Inr body \<Rightarrow>
               (case py_get body ''organic'' (PList []) of
                  Inl e \<Rightarrow> Inl e
                | Inr organic \<Rightarrow>
                    (case py_slice2 organic of
                       Inl e \<Rightarrow> Inl e
                     | Inr result \<Rightarrow> Inr (json_dumps ev result)))))"

text \<open>Lines 23 to 36. \<open>Inl\<close> would be an exception leaving \<^verbatim>\<open>google_search\<close>.\<close>

definition google_search :: "env \<Rightarrow> config \<Rightarrow> pyval \<Rightarrow> exn + string" where
  "google_search ev cfg query =
     (let payload = json_dumps ev (PDict [(''q'', query)]) in
      case search_try ev cfg payload of
        Inr s \<Rightarrow> Inr s
      | Inl e \<Rightarrow> Inr (''Search Error: '' @ exn_str ev e))"

text \<open>The constant \<^verbatim>\<open>tools\<close>, lines 39 to 54.\<close>

definition tools :: pyval where
  "tools = PList [PDict
     [(''type'', PStr ''function''),
      (''function'', PDict
         [(''name'', PStr ''google_search''),
          (''description'', PStr ''Use this to search for company info, recent news, or technical concepts.''),
          (''parameters'', PDict
             [(''type'', PStr ''object''),
              (''properties'', PDict
                 [(''query'', PDict [(''type'', PStr ''string''),
                                    (''description'', PStr ''The search query'')])]),
              (''required'', PList [PStr ''query''])])])]]"

section \<open>Building the conversation\<close>

definition system_msg :: "config \<Rightarrow> message" where
  "system_msg cfg = Dict_msg [(''role'', PStr ''system''), (''content'', PStr (system_prompt cfg))]"

definition user_msg :: "pyval \<Rightarrow> message" where
  "user_msg c = Dict_msg [(''role'', PStr ''user''), (''content'', c)]"

definition assistant_msg :: "pyval \<Rightarrow> message" where
  "assistant_msg c = Dict_msg [(''role'', PStr ''assistant''), (''content'', c)]"

definition tool_msg :: "string \<Rightarrow> string \<Rightarrow> message" where
  "tool_msg i res =
     Dict_msg [(''role'', PStr ''tool''), (''tool_call_id'', PStr i), (''content'', PStr res)]"

text \<open>
  Lines 108 to 110 for an entry that is a list or a tuple with the items \<open>xs\<close>:
  \<^verbatim>\<open>entry[0]\<close> raises on the empty sequence.
\<close>

fun add_pair :: "message list \<Rightarrow> pyval list \<Rightarrow> exn + message list" where
  "add_pair messages [] = Inl IndexError"
| "add_pair messages [u] = Inr (messages @ [user_msg u])"
| "add_pair messages (u # a # rest) =
     (if truthy a then Inr (messages @ [user_msg u] @ [assistant_msg a])
      else Inr (messages @ [user_msg u]))"

text \<open>The body of the loop over the history, lines 108 to 112.\<close>

fun add_entry :: "message list \<Rightarrow> pyval \<Rightarrow> exn + message list" where
  "add_entry messages (PList xs) = add_pair messages xs"
| "add_entry messages (PTuple xs) = add_pair messages xs"
| "add_entry messages (PDict d) = Inr (messages @ [Dict_msg d])"
| "add_entry messages _ = Inr messages"

fun add_history :: "message list \<Rightarrow> pyval list \<Rightarrow> exn + message list" where
  "add_history messages [] = Inr messages"
| "add_history messages (entry # history) =
     (case add_entry messages entry of
        Inl e \<Rightarrow> Inl e
      | Inr messages' \<Rightarrow> add_history messages' history)"

text \<open>Lines 106 to 113.\<close>

definition build_messages :: "config \<Rightarrow> pyval \<Rightarrow> pyval list \<Rightarrow> exn + message list" where
  "build_messages cfg message history =
     (case add_history [system_msg cfg] history of
        Inl e \<Rightarrow> Inl e
      | Inr messages \<Rightarrow> Inr (messages @ [user_msg message]))"

section \<open>The turn\<close>

text \<open>
  \<^verbatim>\<open>google_search(**args)\<close>: the argument must be a mapping, and binding succeeds when its
  only key is \<^verbatim>\<open>query\<close>.
\<close>

fun bind_kwargs :: "pyval \<Rightarrow> exn + pyval" where
  "bind_kwargs (PDict d) =
     (case map_of d ''query'' of
        None \<Rightarrow> Inl TypeError
      | Some v \<Rightarrow> if filter (\<lambda>k. k \<noteq> ''query'') (map fst d) = [] then Inr v else Inl TypeError)"
| "bind_kwargs _ = Inl TypeError"

text \<open>
  Line 130 and the binding of the call in line 131: the decoded arguments become the
  parameter \<^verbatim>\<open>query\<close>, or an exception is raised before \<^verbatim>\<open>google_search\<close> runs.
\<close>

definition decode_args :: "env \<Rightarrow> tool_call \<Rightarrow> exn + pyval" where
  "decode_args ev tc =
     (case json_loads ev (fn_arguments tc) of
        Inl e \<Rightarrow> Inl e
      | Inr args \<Rightarrow> bind_kwargs args)"

text \<open>
  The loop over \<^verbatim>\<open>msg.tool_calls\<close>, lines 128 to 132, on \<^verbatim>\<open>messages\<close> and the events
  so far. An exception ends it; the events up to that point have happened.
\<close>

fun tool_loop ::
  "env \<Rightarrow> config \<Rightarrow> tool_call list \<Rightarrow> message list \<Rightarrow> event list \<Rightarrow> (exn + message list) \<times> event list"
where
  "tool_loop ev cfg [] messages evs = (Inr messages, evs)"
| "tool_loop ev cfg (tc # tcs) messages evs =
     (if fn_name tc = ''google_search'' then
        (case decode_args ev tc of
           Inl e \<Rightarrow> (Inl e, evs)
         | Inr query \<Rightarrow>
             (case google_search ev cfg query of
                Inl e \<Rightarrow> (Inl e, evs @ [Search query])
              | Inr res \<Rightarrow>
                  tool_loop ev cfg tcs (messages @ [tool_msg (tc_id tc) res])
                    (evs @ [Search query])))
      else tool_loop ev cfg tcs messages evs)"

text \<open>\<^verbatim>\<open>choices[0].message\<close>.\<close>

fun first_choice :: "chat_message list \<Rightarrow> exn + chat_message" where
  "first_choice [] = Inl IndexError"
| "first_choice (m # ms) = Inr m"

text \<open>The tool calls that \<^verbatim>\<open>if msg.tool_calls:\<close> lets through: none for \<^verbatim>\<open>None\<close> and \<^verbatim>\<open>[]\<close>.\<close>

definition requested :: "chat_message \<Rightarrow> tool_call list" where
  "requested msg = (case tool_calls msg of None \<Rightarrow> [] | Some tcs \<Rightarrow> tcs)"

definition first_request :: "config \<Rightarrow> message list \<Rightarrow> request" where
  "first_request cfg messages =
     \<lparr>req_model = MODEL_NAME cfg, req_messages = messages, req_tools = Some tools\<rparr>"

definition second_request :: "config \<Rightarrow> message list \<Rightarrow> request" where
  "second_request cfg messages =
     \<lparr>req_model = MODEL_NAME cfg, req_messages = messages, req_tools = None\<rparr>"

text \<open>Lines 135 and 136.\<close>

definition second_call ::
  "env \<Rightarrow> config \<Rightarrow> message list \<Rightarrow> event list \<Rightarrow> (exn + string option) \<times> event list"
where
  "second_call ev cfg messages evs =
     (let evs' = evs @ [Completion (second_request cfg messages)] in
      case completions_create ev (second_request cfg messages) of
        Inl e \<Rightarrow> (Inl e, evs')
      | Inr choices \<Rightarrow>
          (case first_choice choices of
             Inl e \<Rightarrow> (Inl e, evs')
           | Inr final \<Rightarrow> (Inr (content final), evs')))"

text \<open>The body of the \<^verbatim>\<open>try\<close>, lines 116 to 139.\<close>

definition chat_try ::
  "env \<Rightarrow> config \<Rightarrow> message list \<Rightarrow> (exn + string option) \<times> event list"
where
  "chat_try ev cfg messages =
     (let evs = [Completion (first_request cfg messages)] in
      case completions_create ev (first_request cfg messages) of
        Inl e \<Rightarrow> (Inl e, evs)
      | Inr choices \<Rightarrow>
          (case first_choice choices of
             Inl e \<Rightarrow> (Inl e, evs)
           | Inr msg \<Rightarrow>
               if requested msg \<noteq> [] then
                 (case tool_loop ev cfg (requested msg) (messages @ [Obj_msg msg]) evs of
                    (Inl e, evs') \<Rightarrow> (Inl e, evs')
                  | (Inr messages', evs') \<Rightarrow> second_call ev cfg messages' evs')
               else (Inr (content msg), evs)))"

text \<open>
  \<^verbatim>\<open>chat\<close>, lines 104 to 143. The first component is what the caller gets: \<open>Inr\<close> the
  returned value (\<open>None\<close> is Python's \<^verbatim>\<open>None\<close>), \<open>Inl\<close> an exception that leaves \<^verbatim>\<open>chat\<close>.
  The second is what happened outside.
\<close>

definition chat ::
  "env \<Rightarrow> config \<Rightarrow> pyval \<Rightarrow> pyval list \<Rightarrow> (exn + string option) \<times> event list"
where
  "chat ev cfg message history =
     (case build_messages cfg message history of
        Inl e \<Rightarrow> (Inl e, [])
      | Inr messages \<Rightarrow>
          (case chat_try ev cfg messages of
             (Inr reply, evs) \<Rightarrow> (Inr reply, evs)
           | (Inl e, evs) \<Rightarrow> (Inr (Some (''System Error: '' @ exn_str ev e)), evs)))"

section \<open>Reading a conversation\<close>

text \<open>
  What the backend reads off a message: its role, and for a tool result the call it
  answers. The message object of a completion has the role \<^verbatim>\<open>assistant\<close>.
\<close>

fun role_of :: "message \<Rightarrow> pyval option" where
  "role_of (Dict_msg d) = map_of d ''role''"
| "role_of (Obj_msg m) = Some (PStr ''assistant'')"

fun tool_call_id_of :: "message \<Rightarrow> pyval option" where
  "tool_call_id_of (Dict_msg d) = map_of d ''tool_call_id''"
| "tool_call_id_of (Obj_msg m) = None"

definition is_system :: "message \<Rightarrow> bool" where
  "is_system m = (role_of m = Some (PStr ''system''))"

definition is_tool_result :: "message \<Rightarrow> bool" where
  "is_tool_result m = (role_of m = Some (PStr ''tool''))"

text \<open>The tool message with the given call id: the answer to that request.\<close>

definition answers_id :: "string \<Rightarrow> message \<Rightarrow> bool" where
  "answers_id i m = (is_tool_result m \<and> tool_call_id_of m = Some (PStr i))"

text \<open>The one registered tool.\<close>

definition is_search :: "tool_call \<Rightarrow> bool" where
  "is_search tc = (fn_name tc = ''google_search'')"

text \<open>The arguments of a request decode and bind, so that the search runs.\<close>

definition decodable :: "env \<Rightarrow> tool_call \<Rightarrow> bool" where
  "decodable ev tc = (case decode_args ev tc of Inl e \<Rightarrow> False | Inr q \<Rightarrow> True)"

text \<open>
  The message \<open>m\<close> is the tool result of the request \<open>tc\<close>: it carries the id of
  \<open>tc\<close> and the text the search returned for the decoded query of \<open>tc\<close>.
\<close>

definition answers :: "env \<Rightarrow> config \<Rightarrow> tool_call \<Rightarrow> message \<Rightarrow> bool" where
  "answers ev cfg tc m =
     (case decode_args ev tc of
        Inl e \<Rightarrow> False
      | Inr q \<Rightarrow>
          (case google_search ev cfg q of
             Inl e \<Rightarrow> False
           | Inr res \<Rightarrow> m = tool_msg (tc_id tc) res))"

text \<open>An entry of the history that is a dict with the role \<^verbatim>\<open>system\<close>.\<close>

fun system_entry :: "pyval \<Rightarrow> bool" where
  "system_entry (PDict d) = (map_of d ''role'' = Some (PStr ''system''))"
| "system_entry _ = False"

text \<open>An entry on which line 109 raises: a list or a tuple without items.\<close>

fun empty_pair :: "pyval \<Rightarrow> bool" where
  "empty_pair (PList xs) = (xs = [])"
| "empty_pair (PTuple xs) = (xs = [])"
| "empty_pair _ = False"

section \<open>Test doubles\<close>

text \<open>
  Stand-ins for the outside world in the concrete scenarios. \<open>toy_loads\<close> knows the
  argument texts of the scenarios and rejects every other text; \<open>toy_dumps\<close> writes
  strings, lists and dicts in the layout of \<^verbatim>\<open>json.dumps\<close>, without escapes, and does
  not print numbers.
\<close>

definition toy_loads :: "string \<Rightarrow> exn + pyval" where
  "toy_loads s =
     (if s = ''{\"query\": \"Acme Corp\"}'' then Inr (PDict [(''query'', PStr ''Acme Corp'')])
      else if s = ''{}'' then Inr (PDict [])
      else Inl (Raised ''Expecting value: line 1 column 1 (char 0)''))"

fun join :: "string list \<Rightarrow> string" where
  "join [] = []"
| "join [x] = x"
| "join (x # y # zs) = x @ '', '' @ join (y # zs)"

fun toy_dumps :: "pyval \<Rightarrow> string" where
  "toy_dumps PNone = ''null''"
| "toy_dumps (PBool b) = (if b then ''true'' else ''false'')"
| "toy_dumps (PInt i) = ''0''"
| "toy_dumps (PStr s) = ''\"'' @ s @ ''\"''"
| "toy_dumps (PList xs) = ''['' @ join (map toy_dumps xs) @ '']''"
| "toy_dumps (PTuple xs) = ''['' @ join (map toy_dumps xs) @ '']''"
| "toy_dumps (PDict d) =
     ''{'' @ join (map (\<lambda>kv. ''\"'' @ fst kv @ ''\": '' @ toy_dumps (snd kv)) d) @ ''}''"

fun toy_str :: "exn \<Rightarrow> string" where
  "toy_str IndexError = ''list index out of range''"
| "toy_str TypeError = ''bad arguments''"
| "toy_str AttributeError = ''no attribute get''"
| "toy_str (Raised s) = s"

text \<open>
  A world that answers the completion request with tools by \<open>first\<close>, the one without
  by \<open>second\<close>, and every search by \<open>posted\<close>.
\<close>

definition scripted ::
  "(exn + chat_message list) \<Rightarrow> (exn + chat_message list) \<Rightarrow> (exn + http_response) \<Rightarrow> env"
where
  "scripted first second posted =
     \<lparr>completions_create = (\<lambda>r. case req_tools r of Some t \<Rightarrow> first | None \<Rightarrow> second),
      requests_post = (\<lambda>url headers body. posted),
      json_loads = toy_loads,
      json_dumps = toy_dumps,
      exn_str = toy_str\<rparr>"

definition ada :: config where
  "ada = \<lparr>SERPER_API_KEY = Some ''k'', USER_NAME = Some ''Ada'', USER_ROLE = Some ''Engineer'',
          MODEL_NAME = Some ''m'', GLOBAL_CONTEXT = ''X''\<rparr>"

definition acme_call :: tool_call where
  "acme_call = \<lparr>tc_id = ''c1'', fn_name = ''google_search'',
                 fn_arguments = ''{\"query\": \"Acme Corp\"}''\<rparr>"

definition weather_call :: tool_call where
  "weather_call = \<lparr>tc_id = ''c0'', fn_name = ''get_weather'', fn_arguments = ''{}''\<rparr>"

definition broken_call :: tool_call where
  "broken_call = \<lparr>tc_id = ''c2'', fn_name = ''google_search'', fn_arguments = ''query''\<rparr>"

definition acme_page :: http_response where
  "acme_page = \<lparr>status_code = 200,
                 json = Inr (PDict [(''organic'', PList [PDict [(''title'', PStr ''Acme'')]])])\<rparr>"

definition three_hits :: http_response where
  "three_hits = \<lparr>status_code = 200,
                  json = Inr (PDict [(''organic'', PList [PDict [(''title'', PStr ''A'')],
                    PDict [(''title'', PStr ''B'')], PDict [(''title'', PStr ''C'')]])])\<rparr>"

definition not_json :: http_response where
  "not_json = \<lparr>status_code = 502,
                json = Inl (Raised ''Expecting value: line 1 column 1 (char 0)'')\<rparr>"

definition asking :: "tool_call list \<Rightarrow> chat_message" where
  "asking tcs = \<lparr>content = None, tool_calls = Some tcs\<rparr>"

definition saying :: "string \<Rightarrow> chat_message" where
  "saying s = \<lparr>content = Some s, tool_calls = None\<rparr>"

section \<open>The tool loop\<close>

lemma google_search_returns: "\<exists>s. google_search ev cfg q = Inr s"
  by (simp add: google_search_def split: sum.split)

lemma tool_loop_append:
  "tool_loop ev cfg (xs @ ys) ms evs =
     (case tool_loop ev cfg xs ms evs of
        (Inl e, evs') \<Rightarrow> (Inl e, evs')
      | (Inr ms', evs') \<Rightarrow> tool_loop ev cfg ys ms' evs')"
  by (induction xs arbitrary: ms evs) (auto split: sum.splits)

lemma tool_loop_unknown:
  "\<not> is_search tc \<Longrightarrow> tool_loop ev cfg (tc # tcs) ms evs = tool_loop ev cfg tcs ms evs"
  by (simp add: is_search_def)

lemma tool_loop_skips:
  assumes "\<not> is_search tc"
  shows "tool_loop ev cfg (pre @ tc # post) ms evs = tool_loop ev cfg (pre @ post) ms evs"
  using assms by (simp add: tool_loop_append is_search_def split: prod.split sum.split)


lemma answers_tool_result:
  "answers ev cfg tc m \<Longrightarrow> is_tool_result m \<and> tool_call_id_of m = Some (PStr (tc_id tc))"
  by (auto simp: answers_def is_tool_result_def tool_msg_def split: sum.splits)

lemma tool_loop_completes:
  assumes "list_all (decodable ev) (filter is_search tcs)"
  shows "\<exists>new qs. tool_loop ev cfg tcs ms evs = (Inr (ms @ new), evs @ map Search qs) \<and>
           list_all2 (answers ev cfg) (filter is_search tcs) new \<and>
           length qs = length new"
  using assms
proof (induction tcs arbitrary: ms evs)
  case Nil
  then show ?case by simp
next
  case (Cons tc tcs)
  show ?case
  proof (cases "is_search tc")
    case False
    with Cons show ?thesis by (simp add: is_search_def)
  next
    case True
    with Cons.prems obtain q where q: "decode_args ev tc = Inr q"
      by (auto simp: decodable_def split: sum.splits)
    obtain res where res: "google_search ev cfg q = Inr res"
      using google_search_returns by blast
    from Cons.prems True have "list_all (decodable ev) (filter is_search tcs)" by simp
    from Cons.IH [OF this, of "ms @ [tool_msg (tc_id tc) res]" "evs @ [Search q]"]
    obtain new qs where
      run: "tool_loop ev cfg tcs (ms @ [tool_msg (tc_id tc) res]) (evs @ [Search q]) =
              (Inr ((ms @ [tool_msg (tc_id tc) res]) @ new), (evs @ [Search q]) @ map Search qs)"
      and ans: "list_all2 (answers ev cfg) (filter is_search tcs) new"
      and len: "length qs = length new"
      by blast
    have here: "answers ev cfg tc (tool_msg (tc_id tc) res)"
      by (simp add: answers_def q res)
    have "tool_loop ev cfg (tc # tcs) ms evs =
            (Inr (ms @ (tool_msg (tc_id tc) res # new)), evs @ map Search (q # qs))"
      using True q res run by (simp add: is_search_def)
    moreover have "list_all2 (answers ev cfg) (filter is_search (tc # tcs)) (tool_msg (tc_id tc) res # new)"
      using True here ans by simp
    moreover have "length (q # qs) = length (tool_msg (tc_id tc) res # new)"
      using len by simp
    ultimately show ?thesis by blast
  qed
qed

lemma tool_loop_events:
  "tool_loop ev cfg tcs ms evs = (r, evs') \<Longrightarrow>
     \<exists>qs. evs' = evs @ map Search qs \<and> length qs \<le> length tcs"
proof (induction tcs arbitrary: ms evs)
  case Nil
  then show ?case by simp
next
  case (Cons tc tcs)
  show ?case
  proof (cases "is_search tc")
    case False
    with Cons.prems have "tool_loop ev cfg tcs ms evs = (r, evs')"
      by (simp add: is_search_def)
    from Cons.IH [OF this] show ?thesis by auto
  next
    case True
    show ?thesis
    proof (cases "decode_args ev tc")
      case (Inl e)
      with True Cons.prems have "evs' = evs" by (simp add: is_search_def)
      then show ?thesis by simp
    next
      case (Inr q)
      obtain res where res: "google_search ev cfg q = Inr res"
        using google_search_returns by blast
      with True Inr Cons.prems
      have "tool_loop ev cfg tcs (ms @ [tool_msg (tc_id tc) res]) (evs @ [Search q]) = (r, evs')"
        by (simp add: is_search_def)
      from Cons.IH [OF this] obtain qs where
        "evs' = (evs @ [Search q]) @ map Search qs" "length qs \<le> length tcs" by blast
      then have "evs' = evs @ map Search (q # qs) \<and> length (q # qs) \<le> length (tc # tcs)"
        by simp
      then show ?thesis by blast
    qed
  qed
qed

lemma tool_loop_grows:
  "tool_loop ev cfg tcs ms evs = (Inr ms', evs') \<Longrightarrow> prefix ms ms'"
proof (induction tcs arbitrary: ms evs)
  case Nil
  then show ?case by simp
next
  case (Cons tc tcs)
  show ?case
  proof (cases "is_search tc")
    case False
    with Cons show ?thesis by (simp add: is_search_def)
  next
    case True
    with Cons.prems obtain q res where
      "tool_loop ev cfg tcs (ms @ [tool_msg (tc_id tc) res]) (evs @ [Search q]) = (Inr ms', evs')"
      by (auto simp: is_search_def split: sum.splits)
    from Cons.IH [OF this] show ?thesis
      using append_prefixD by blast
  qed
qed

section \<open>The prompt, the empty entry and the turn without tool calls\<close>

text \<open>
  C9. The system prompt is a function of the name, the role and the knowledge context
  alone, and contains each of the three as a substring: the key of the search service and
  the model name do not change it.
\<close>

theorem system_prompt_contains:
  "sublist n (system_prompt \<lparr>SERPER_API_KEY = k, USER_NAME = Some n, USER_ROLE = Some r,
                             MODEL_NAME = m, GLOBAL_CONTEXT = c\<rparr>) \<and>
   sublist r (system_prompt \<lparr>SERPER_API_KEY = k, USER_NAME = Some n, USER_ROLE = Some r,
                             MODEL_NAME = m, GLOBAL_CONTEXT = c\<rparr>) \<and>
   sublist c (system_prompt \<lparr>SERPER_API_KEY = k, USER_NAME = Some n, USER_ROLE = Some r,
                             MODEL_NAME = m, GLOBAL_CONTEXT = c\<rparr>) \<and>
   system_prompt \<lparr>SERPER_API_KEY = k', USER_NAME = Some n, USER_ROLE = Some r,
                  MODEL_NAME = m', GLOBAL_CONTEXT = c\<rparr> =
   system_prompt \<lparr>SERPER_API_KEY = k, USER_NAME = Some n, USER_ROLE = Some r,
                  MODEL_NAME = m, GLOBAL_CONTEXT = c\<rparr>"
proof (intro conjI)
  let ?cfg = "\<lparr>SERPER_API_KEY = k, USER_NAME = Some n, USER_ROLE = Some r,
               MODEL_NAME = m, GLOBAL_CONTEXT = c\<rparr>"
  have parts: "system_prompt ?cfg =
      ''\<newline>    You are acting as '' @ n @ '', a '' @ r @
      ''.\<newline>    \<newline>    ## DUAL GOAL\<newline>    1. **Candidate:** Answer impressively using the RESUME CONTEXT.\<newline>    2. **Coach:** After the answer, explain WHY it is good.\<newline>\<newline>    ## INSTRUCTIONS\<newline>    - Speak in First Person (\"I\", \"Me\").\<newline>    - Use the STAR Method (Situation, Task, Action, Result).\<newline>    - If asked about a company, use 'google_search' first.\<newline>    - End with a 'Coach's Note'.\<newline>\<newline>    ## RESUME CONTEXT\<newline>    '' @
      c @ ''\<newline>    ''"
    by (simp add: system_prompt_def)
  show "sublist n (system_prompt ?cfg)"
    unfolding parts by (rule sublist_appendI)
  show "sublist r (system_prompt ?cfg)"
    unfolding parts sublist_def by (metis append.assoc)
  show "sublist c (system_prompt ?cfg)"
    unfolding parts sublist_def by (metis append.assoc)
  show "system_prompt \<lparr>SERPER_API_KEY = k', USER_NAME = Some n, USER_ROLE = Some r,
                  MODEL_NAME = m', GLOBAL_CONTEXT = c\<rparr> = system_prompt ?cfg"
    by (simp add: system_prompt_def)
qed

text \<open>For the identity Ada, Engineer and the context X.\<close>

lemma system_prompt_ada:
  "sublist ''Ada'' (system_prompt ada) \<and> sublist ''Engineer'' (system_prompt ada) \<and>
   sublist ''X'' (system_prompt ada)"
  unfolding ada_def by (rule system_prompt_contains[THEN conjunct1] conjI system_prompt_contains[THEN conjunct2, THEN conjunct1] system_prompt_contains[THEN conjunct2, THEN conjunct2, THEN conjunct1])+

text \<open>
  C6. Normalising the history is meant to survive every entry. On an entry that is an empty
  list or an empty tuple, line 109 reads \<^verbatim>\<open>entry[0]\<close> before the \<^verbatim>\<open>try\<close> of line 115
  is entered: the \<^verbatim>\<open>IndexError\<close> leaves \<^verbatim>\<open>chat\<close>, and no request has been issued.
\<close>

theorem empty_pair_crashes:
  "build_messages cfg message [PList []] = Inl IndexError \<and>
   chat ev cfg message [PList []] = (Inl IndexError, []) \<and>
   chat ev cfg message [PTuple []] = (Inl IndexError, [])"
  by (simp add: build_messages_def chat_def)

text \<open>
  C4. When the first completion carries no tool call (\<^verbatim>\<open>None\<close> or the empty list),
  \<^verbatim>\<open>chat\<close> returns the content of that completion as it is, whatever it is, and issues no
  other request.
\<close>

theorem no_tool_calls_returns_content:
  assumes "build_messages cfg message history = Inr messages"
    and "completions_create ev (first_request cfg messages) = Inr (msg # others)"
    and "tool_calls msg = None \<or> tool_calls msg = Some []"
  shows "chat ev cfg message history = (Inr (content msg), [Completion (first_request cfg messages)])"
  using assms by (auto simp: chat_def chat_try_def requested_def)

text \<open>The first scenario, with an empty content: the empty string comes back.\<close>

theorem no_tool_calls_witness:
  "build_messages ada (PStr ''Tell me about yourself'') [] =
     Inr [system_msg ada, user_msg (PStr ''Tell me about yourself'')] \<and>
   completions_create (scripted (Inr [saying '''']) (Inl (Raised ''unused'')) (Inl (Raised ''unused'')))
     (first_request ada [system_msg ada, user_msg (PStr ''Tell me about yourself'')]) = Inr [saying ''''] \<and>
   tool_calls (saying '''') = None \<and>
   chat (scripted (Inr [saying '''']) (Inl (Raised ''unused'')) (Inl (Raised ''unused'')))
     ada (PStr ''Tell me about yourself'') [] =
     (Inr (Some ''''), [Completion (first_request ada [system_msg ada, user_msg (PStr ''Tell me about yourself'')])])"
proof -
  let ?ev = "scripted (Inr [saying '''']) (Inl (Raised ''unused'')) (Inl (Raised ''unused''))"
  let ?ms = "[system_msg ada, user_msg (PStr ''Tell me about yourself'')]"
  have b: "build_messages ada (PStr ''Tell me about yourself'') [] = Inr ?ms"
    by (simp add: build_messages_def)
  have c: "completions_create ?ev (first_request ada ?ms) = Inr [saying '''']"
    by (simp add: scripted_def first_request_def)
  have t: "tool_calls (saying '''') = None \<or> tool_calls (saying '''') = Some []"
    by (simp add: saying_def)
  from no_tool_calls_returns_content [OF b c t] b c show ?thesis
    by (simp add: saying_def)
qed

section \<open>The normalised conversation\<close>

lemma add_pair_extends:
  "add_pair ms xs = Inr ms' \<Longrightarrow> \<exists>new. ms' = ms @ new \<and> add_pair ms0 xs = Inr (ms0 @ new) \<and>
      list_all (\<lambda>m. \<not> is_system m) new"
  by (induction ms xs rule: add_pair.induct)
     (auto simp: is_system_def user_msg_def assistant_msg_def split: if_splits)

lemma add_entry_extends:
  "add_entry ms e = Inr ms' \<Longrightarrow> \<exists>new. ms' = ms @ new \<and> add_entry ms0 e = Inr (ms0 @ new) \<and>
      (\<not> system_entry e \<longrightarrow> list_all (\<lambda>m. \<not> is_system m) new)"
proof (cases e)
  case (PList xs)
  then show "add_entry ms e = Inr ms' \<Longrightarrow> ?thesis"
    using add_pair_extends [of ms xs ms' ms0] by auto
next
  case (PTuple xs)
  then show "add_entry ms e = Inr ms' \<Longrightarrow> ?thesis"
    using add_pair_extends [of ms xs ms' ms0] by auto
qed (auto simp: is_system_def)

lemma add_history_append:
  "add_history ms (h1 @ h2) =
     (case add_history ms h1 of Inl e \<Rightarrow> Inl e | Inr ms1 \<Rightarrow> add_history ms1 h2)"
  by (induction h1 arbitrary: ms) (auto split: sum.splits)

lemma add_history_extends:
  "add_history ms h = Inr ms' \<Longrightarrow>
     \<exists>new. ms' = ms @ new \<and> add_history ms0 h = Inr (ms0 @ new) \<and>
       (\<not> list_ex system_entry h \<longrightarrow> list_all (\<lambda>m. \<not> is_system m) new)"
proof (induction h arbitrary: ms ms0)
  case Nil
  then show ?case by simp
next
  case (Cons e h)
  from Cons.prems obtain ms1 where e: "add_entry ms e = Inr ms1" and h: "add_history ms1 h = Inr ms'"
    by (auto split: sum.splits)
  from add_entry_extends [OF e, of ms0] obtain n1 where
    n1: "ms1 = ms @ n1" "add_entry ms0 e = Inr (ms0 @ n1)"
        "\<not> system_entry e \<longrightarrow> list_all (\<lambda>m. \<not> is_system m) n1"
    by blast
  from Cons.IH [OF h, of "ms0 @ n1"] obtain n2 where
    n2: "ms' = ms1 @ n2" "add_history (ms0 @ n1) h = Inr ((ms0 @ n1) @ n2)"
        "\<not> list_ex system_entry h \<longrightarrow> list_all (\<lambda>m. \<not> is_system m) n2"
    by blast
  have "ms' = ms @ (n1 @ n2)" using n1 n2 by simp
  moreover have "add_history ms0 (e # h) = Inr (ms0 @ (n1 @ n2))" using n1 n2 by simp
  moreover have "\<not> list_ex system_entry (e # h) \<longrightarrow> list_all (\<lambda>m. \<not> is_system m) (n1 @ n2)"
    using n1 n2 by simp
  ultimately show ?case by blast
qed

text \<open>
  The loop over the history completes on every entry but the empty list and the empty
  tuple: strings, numbers and \<^verbatim>\<open>None\<close> are skipped, a dict is taken as it is.
\<close>

lemma add_history_completes:
  "(\<exists>ms'. add_history ms h = Inr ms') \<longleftrightarrow> \<not> list_ex empty_pair h"
proof (induction h arbitrary: ms)
  case Nil
  then show ?case by simp
next
  case (Cons e h)
  have step: "(\<exists>ms1. add_entry ms e = Inr ms1) \<longleftrightarrow> \<not> empty_pair e"
  proof (cases e)
    case (PList xs)
    then show ?thesis by (cases "(ms, xs)" rule: add_pair.cases) auto
  next
    case (PTuple xs)
    then show ?thesis by (cases "(ms, xs)" rule: add_pair.cases) auto
  qed auto
  show ?case
  proof (cases "add_entry ms e")
    case (Inl x)
    with step show ?thesis by auto
  next
    case (Inr ms1)
    with step Cons.IH [of ms1] show ?thesis by auto
  qed
qed

lemma build_messages_completes:
  "(\<exists>conv. build_messages cfg message history = Inr conv) \<longleftrightarrow> \<not> list_ex empty_pair history"
  using add_history_completes [of "[system_msg cfg]" history]
  by (auto simp: build_messages_def split: sum.splits)

text \<open>
  C7, as the code has it. When the normalisation completes, the conversation starts with
  the system message built from the prompt, and that is its only system message unless
  an entry of the history is itself a dict with the role \<^verbatim>\<open>system\<close>, which is passed on as it
  is. An entry that is a list or a tuple of a user text \<open>u\<close> and an assistant value \<open>a\<close>
  contributes, at its place, the user message and then the assistant message when \<open>a\<close>
  is true in Python's sense (a non-empty text), and the user message alone when it is not
  (\<^verbatim>\<open>None\<close>, the empty text): no empty assistant message is emitted.
\<close>

theorem normalised_conversation:
  assumes "build_messages cfg message history = Inr conv"
  shows "(\<exists>rest. conv = system_msg cfg # rest \<and> is_system (system_msg cfg) \<and>
            (\<not> list_ex system_entry history \<longrightarrow> filter is_system rest = [])) \<and>
         (history = before @ [entry] @ after \<longrightarrow>
          entry = PList (u # a # extra) \<or> entry = PTuple (u # a # extra) \<longrightarrow>
            (\<exists>c1 c2. add_history [system_msg cfg] before = Inr c1 \<and>
                     add_history [] after = Inr c2 \<and>
                     conv = c1 @ (if truthy a then [user_msg u, assistant_msg a] else [user_msg u])
                              @ c2 @ [user_msg message]))"
proof (intro conjI impI)
  from assms obtain ms where ms: "add_history [system_msg cfg] history = Inr ms"
    and conv: "conv = ms @ [user_msg message]"
    by (auto simp: build_messages_def split: sum.splits)
  from add_history_extends [OF ms, of "[]"] obtain new where
    new: "ms = [system_msg cfg] @ new"
         "\<not> list_ex system_entry history \<longrightarrow> list_all (\<lambda>m. \<not> is_system m) new"
    by blast
  have sys: "is_system (system_msg cfg)"
    by (simp add: is_system_def system_msg_def)
  have usr: "\<not> is_system (user_msg message)"
    by (simp add: is_system_def user_msg_def)
  have "conv = system_msg cfg # (new @ [user_msg message])"
    using conv new by simp
  moreover have "\<not> list_ex system_entry history \<longrightarrow> filter is_system (new @ [user_msg message]) = []"
    using new(2) usr by (auto simp: list_all_iff filter_empty_conv)
  ultimately show "\<exists>rest. conv = system_msg cfg # rest \<and> is_system (system_msg cfg) \<and>
            (\<not> list_ex system_entry history \<longrightarrow> filter is_system rest = [])"
    using sys by blast
next
  assume split: "history = before @ [entry] @ after"
    and pair: "entry = PList (u # a # extra) \<or> entry = PTuple (u # a # extra)"
  let ?mid = "if truthy a then [user_msg u, assistant_msg a] else [user_msg u]"
  from assms obtain ms where ms: "add_history [system_msg cfg] history = Inr ms"
    and conv: "conv = ms @ [user_msg message]"
    by (auto simp: build_messages_def split: sum.splits)
  from ms split obtain c1 where c1: "add_history [system_msg cfg] before = Inr c1"
    and rest: "add_history c1 (entry # after) = Inr ms"
    by (auto simp: add_history_append split: sum.splits)
  from pair have entry: "add_entry c1 entry = Inr (c1 @ ?mid)" by auto
  with rest have "add_history (c1 @ ?mid) after = Inr ms" by simp
  from add_history_extends [OF this, of "[]"] obtain c2 where
    "ms = (c1 @ ?mid) @ c2" "add_history [] after = Inr c2" by auto
  with c1 conv show "\<exists>c1 c2. add_history [system_msg cfg] before = Inr c1 \<and>
                     add_history [] after = Inr c2 \<and>
                     conv = c1 @ ?mid @ c2 @ [user_msg message]"
    by auto
qed

text \<open>
  C7 as stated fails on a history that holds a system message of its own: line 112 appends
  a dict entry without looking at its role, and the conversation then starts with two
  system messages.
\<close>

theorem second_system_message:
  "build_messages ada (PStr ''hi'') [PDict [(''role'', PStr ''system''), (''content'', PStr ''x'')]] =
     Inr [system_msg ada, Dict_msg [(''role'', PStr ''system''), (''content'', PStr ''x'')],
          user_msg (PStr ''hi'')] \<and>
   takeWhile is_system
     [system_msg ada, Dict_msg [(''role'', PStr ''system''), (''content'', PStr ''x'')],
      user_msg (PStr ''hi'')] =
     [system_msg ada, Dict_msg [(''role'', PStr ''system''), (''content'', PStr ''x'')]]"
  by (simp add: build_messages_def is_system_def system_msg_def user_msg_def)

text \<open>A history of a full pair, a pair with \<^verbatim>\<open>None\<close> for the assistant, and a stray number.\<close>

theorem normalised_conversation_witness:
  "build_messages ada (PStr ''hi'')
     [PList [PStr ''q1'', PStr ''a1''], PTuple [PStr ''q2'', PNone], PInt 7] =
     Inr [system_msg ada, user_msg (PStr ''q1''), assistant_msg (PStr ''a1''),
          user_msg (PStr ''q2''), user_msg (PStr ''hi'')] \<and>
   \<not> list_ex system_entry [PList [PStr ''q1'', PStr ''a1''], PTuple [PStr ''q2'', PNone], PInt 7] \<and>
   filter is_system [user_msg (PStr ''q1''), assistant_msg (PStr ''a1''),
          user_msg (PStr ''q2''), user_msg (PStr ''hi'')] = [] \<and>
   add_history [system_msg ada] [PList [PStr ''q1'', PStr ''a1'']] =
     Inr [system_msg ada, user_msg (PStr ''q1''), assistant_msg (PStr ''a1'')] \<and>
   add_history [] [PInt 7] = Inr [] \<and>
   \<not> truthy PNone"
proof -
  let ?h = "[PList [PStr ''q1'', PStr ''a1''], PTuple [PStr ''q2'', PNone], PInt 7]"
  let ?conv = "[system_msg ada, user_msg (PStr ''q1''), assistant_msg (PStr ''a1''),
          user_msg (PStr ''q2''), user_msg (PStr ''hi'')]"
  have b: "build_messages ada (PStr ''hi'') ?h = Inr ?conv"
    by (simp add: build_messages_def)
  have s: "?h = [PList [PStr ''q1'', PStr ''a1'']] @ [PTuple [PStr ''q2'', PNone]] @ [PInt 7]"
    by simp
  from normalised_conversation [OF b, of "[PList [PStr ''q1'', PStr ''a1'']]"
      "PTuple [PStr ''q2'', PNone]" "[PInt 7]" "PStr ''q2''" PNone "[]"] b
  show ?thesis by simp
qed

section \<open>The search tool returns text\<close>

text \<open>
  C5. \<^verbatim>\<open>google_search\<close> always returns a string. When the provider answers with a dict
  whose \<^verbatim>\<open>organic\<close> is a list, the string is the serialisation of its first two entries,
  or of all of them when there are fewer than two. When the request fails, or the body
  of the response does not parse, the string is the error text after \<^verbatim>\<open>Search Error: \<close>.
\<close>

theorem google_search_results:
  "(\<exists>s. google_search ev cfg query = Inr s) \<and>
   (requests_post ev search_url (search_headers cfg) (json_dumps ev (PDict [(''q'', query)])) = Inr response \<longrightarrow>
    json response = Inr (PDict body) \<longrightarrow> map_of body ''organic'' = Some (PList organic) \<longrightarrow>
      google_search ev cfg query = Inr (json_dumps ev (PList (take 2 organic))) \<and>
      (2 \<le> length organic \<longrightarrow> take 2 organic = [organic ! 0, organic ! 1]) \<and>
      (length organic < 2 \<longrightarrow> take 2 organic = organic)) \<and>
   (requests_post ev search_url (search_headers cfg) (json_dumps ev (PDict [(''q'', query)])) = Inl e \<longrightarrow>
      google_search ev cfg query = Inr (''Search Error: '' @ exn_str ev e)) \<and>
   (requests_post ev search_url (search_headers cfg) (json_dumps ev (PDict [(''q'', query)])) = Inr response \<longrightarrow>
    json response = Inl e \<longrightarrow>
      google_search ev cfg query = Inr (''Search Error: '' @ exn_str ev e))"
proof (intro conjI impI)
  show "\<exists>s. google_search ev cfg query = Inr s"
    by (rule google_search_returns)
next
  assume "requests_post ev search_url (search_headers cfg) (json_dumps ev (PDict [(''q'', query)])) = Inr response"
    and "json response = Inr (PDict body)" and "map_of body ''organic'' = Some (PList organic)"
  then show "google_search ev cfg query = Inr (json_dumps ev (PList (take 2 organic)))"
    by (simp add: google_search_def search_try_def)
next
  assume "2 \<le> length organic"
  then obtain x y zs where "organic = x # y # zs"
    by (cases organic; cases "tl organic") auto
  then show "take 2 organic = [organic ! 0, organic ! 1]"
    by (simp add: numeral_2_eq_2)
next
  assume "length organic < 2"
  then show "take 2 organic = organic" by simp
next
  assume "requests_post ev search_url (search_headers cfg) (json_dumps ev (PDict [(''q'', query)])) = Inl e"
  then show "google_search ev cfg query = Inr (''Search Error: '' @ exn_str ev e)"
    by (simp add: google_search_def search_try_def)
next
  assume "requests_post ev search_url (search_headers cfg) (json_dumps ev (PDict [(''q'', query)])) = Inr response"
    and "json response = Inl e"
  then show "google_search ev cfg query = Inr (''Search Error: '' @ exn_str ev e)"
    by (simp add: google_search_def search_try_def)
qed

text \<open>Three hits, one hit, a refused connection and a body that is not JSON.\<close>

theorem google_search_results_witness:
  "google_search (scripted (Inl (Raised ''unused'')) (Inl (Raised ''unused'')) (Inr three_hits)) ada
     (PStr ''Acme Corp'') = Inr ''[{\"title\": \"A\"}, {\"title\": \"B\"}]'' \<and>
   google_search (scripted (Inl (Raised ''unused'')) (Inl (Raised ''unused'')) (Inr acme_page)) ada
     (PStr ''Acme Corp'') = Inr ''[{\"title\": \"Acme\"}]'' \<and>
   google_search (scripted (Inl (Raised ''unused'')) (Inl (Raised ''unused'')) (Inl (Raised ''connection refused''))) ada
     (PStr ''Acme Corp'') = Inr ''Search Error: connection refused'' \<and>
   google_search (scripted (Inl (Raised ''unused'')) (Inl (Raised ''unused'')) (Inr not_json)) ada
     (PStr ''Acme Corp'') = Inr ''Search Error: Expecting value: line 1 column 1 (char 0)''"
proof -
  let ?w = "\<lambda>p. scripted (Inl (Raised ''unused'')) (Inl (Raised ''unused'')) p"
  have three: "requests_post (?w (Inr three_hits)) search_url (search_headers ada)
        (json_dumps (?w (Inr three_hits)) (PDict [(''q'', PStr ''Acme Corp'')])) = Inr three_hits"
    "json three_hits = Inr (PDict [(''organic'', PList [PDict [(''title'', PStr ''A'')],
        PDict [(''title'', PStr ''B'')], PDict [(''title'', PStr ''C'')]])])"
    "map_of [(''organic'', PList [PDict [(''title'', PStr ''A'')],
        PDict [(''title'', PStr ''B'')], PDict [(''title'', PStr ''C'')]])] ''organic'' =
      Some (PList [PDict [(''title'', PStr ''A'')], PDict [(''title'', PStr ''B'')], PDict [(''title'', PStr ''C'')]])"
    by (simp_all add: scripted_def three_hits_def)
  have one: "requests_post (?w (Inr acme_page)) search_url (search_headers ada)
        (json_dumps (?w (Inr acme_page)) (PDict [(''q'', PStr ''Acme Corp'')])) = Inr acme_page"
    "json acme_page = Inr (PDict [(''organic'', PList [PDict [(''title'', PStr ''Acme'')]])])"
    "map_of [(''organic'', PList [PDict [(''title'', PStr ''Acme'')]])] ''organic'' =
      Some (PList [PDict [(''title'', PStr ''Acme'')]])"
    by (simp_all add: scripted_def acme_page_def)
  have net: "requests_post (?w (Inl (Raised ''connection refused''))) search_url (search_headers ada)
        (json_dumps (?w (Inl (Raised ''connection refused''))) (PDict [(''q'', PStr ''Acme Corp'')])) =
        Inl (Raised ''connection refused'')"
    by (simp add: scripted_def)
  have bad: "requests_post (?w (Inr not_json)) search_url (search_headers ada)
        (json_dumps (?w (Inr not_json)) (PDict [(''q'', PStr ''Acme Corp'')])) = Inr not_json"
    "json not_json = Inl (Raised ''Expecting value: line 1 column 1 (char 0)'')"
    by (simp_all add: scripted_def not_json_def)
  have a: "google_search (?w (Inr three_hits)) ada (PStr ''Acme Corp'') =
             Inr ''[{\"title\": \"A\"}, {\"title\": \"B\"}]''"
    using google_search_results [of "?w (Inr three_hits)" ada "PStr ''Acme Corp''" three_hits] three
    by (simp add: scripted_def)
  have b: "google_search (?w (Inr acme_page)) ada (PStr ''Acme Corp'') = Inr ''[{\"title\": \"Acme\"}]''"
    using google_search_results [of "?w (Inr acme_page)" ada "PStr ''Acme Corp''" acme_page] one
    by (simp add: scripted_def)
  have c: "google_search (?w (Inl (Raised ''connection refused''))) ada (PStr ''Acme Corp'') =
             Inr ''Search Error: connection refused''"
    using google_search_results [of "?w (Inl (Raised ''connection refused''))" ada "PStr ''Acme Corp''"
        _ _ _ "Raised ''connection refused''"] net
    by (simp add: scripted_def)
  have d: "google_search (?w (Inr not_json)) ada (PStr ''Acme Corp'') =
             Inr ''Search Error: Expecting value: line 1 column 1 (char 0)''"
    using google_search_results [of "?w (Inr not_json)" ada "PStr ''Acme Corp''" not_json
        _ _ "Raised ''Expecting value: line 1 column 1 (char 0)''"] bad
    by (simp add: scripted_def)
  from a b c d show ?thesis by blast
qed

section \<open>The turn with tool calls\<close>

text \<open>
  What \<^verbatim>\<open>chat\<close> does once the first completion asks for tools, read off the loop: an
  exception of the loop or of the second call becomes the reply, otherwise the content of
  the second completion is the reply.
\<close>

lemma chat_with_tool_calls:
  assumes "build_messages cfg message history = Inr messages"
    and "completions_create ev (first_request cfg messages) = Inr (msg # others)"
    and "requested msg \<noteq> []"
  shows "chat ev cfg message history =
     (case tool_loop ev cfg (requested msg) (messages @ [Obj_msg msg])
             [Completion (first_request cfg messages)] of
        (Inl e, evs) \<Rightarrow> (Inr (Some (''System Error: '' @ exn_str ev e)), evs)
      | (Inr messages', evs) \<Rightarrow>
          (case completions_create ev (second_request cfg messages') of
             Inl e \<Rightarrow> (Inr (Some (''System Error: '' @ exn_str ev e)),
                        evs @ [Completion (second_request cfg messages')])
           | Inr [] \<Rightarrow> (Inr (Some (''System Error: '' @ exn_str ev IndexError)),
                        evs @ [Completion (second_request cfg messages')])
           | Inr (final # rest) \<Rightarrow> (Inr (content final),
                        evs @ [Completion (second_request cfg messages')])))"
  using assms
  by (simp add: chat_def chat_try_def second_call_def Let_def
           split: prod.split sum.split list.split)

lemma answers_all:
  "list_all2 (answers ev cfg) tcs new \<Longrightarrow>
     list_all is_tool_result new \<and> map tool_call_id_of new = map (\<lambda>tc. Some (PStr (tc_id tc))) tcs"
  by (induction rule: list_all2_induct) (auto dest: answers_tool_result)

text \<open>
  C1, as the code has it. When the first completion carries at least one tool call and the
  arguments of every call of \<^verbatim>\<open>google_search\<close> decode, the second completion request is
  issued over the conversation extended by the assistant message and then by one tool
  message for each call of \<^verbatim>\<open>google_search\<close>, in the order of the requests, each with the
  id of its request and the text the search returned. A call of another name gets no
  message; when all \<open>N\<close> calls name \<^verbatim>\<open>google_search\<close> there are exactly \<open>N\<close> tool messages.
\<close>

theorem tool_results_follow_requests:
  assumes "build_messages cfg message history = Inr messages"
    and "completions_create ev (first_request cfg messages) = Inr (msg # others)"
    and "requested msg \<noteq> []"
    and "list_all (decodable ev) (filter is_search (requested msg))"
  shows "\<exists>new qs.
           snd (chat ev cfg message history) =
             Completion (first_request cfg messages) # map Search qs @
               [Completion (second_request cfg (messages @ [Obj_msg msg] @ new))] \<and>
           list_all2 (answers ev cfg) (filter is_search (requested msg)) new \<and>
           list_all is_tool_result new \<and>
           map tool_call_id_of new =
             map (\<lambda>tc. Some (PStr (tc_id tc))) (filter is_search (requested msg)) \<and>
           (list_all is_search (requested msg) \<longrightarrow> length new = length (requested msg))"
proof -
  let ?first = "Completion (first_request cfg messages)"
  from tool_loop_completes [OF assms(4), of cfg "messages @ [Obj_msg msg]" "[?first]"]
  obtain new qs where
    run: "tool_loop ev cfg (requested msg) (messages @ [Obj_msg msg]) [?first] =
            (Inr ((messages @ [Obj_msg msg]) @ new), [?first] @ map Search qs)"
    and ans: "list_all2 (answers ev cfg) (filter is_search (requested msg)) new"
    by blast
  have ev: "snd (chat ev cfg message history) =
              ?first # map Search qs @ [Completion (second_request cfg (messages @ [Obj_msg msg] @ new))]"
    using run by (simp add: chat_with_tool_calls [OF assms(1-3)] split: sum.split list.split)
  from ans have len: "length new = length (filter is_search (requested msg))"
    by (simp add: list_all2_lengthD)
  from answers_all [OF ans] have tools: "list_all is_tool_result new"
    and ids: "map tool_call_id_of new =
               map (\<lambda>tc. Some (PStr (tc_id tc))) (filter is_search (requested msg))"
    by simp_all
  have all: "list_all is_search (requested msg) \<longrightarrow> length new = length (requested msg)"
    using len by (simp add: list_all_iff)
  from ev ans tools ids all show ?thesis by blast
qed


text \<open>The scenario of the search for Acme Corp.\<close>

lemma acme_search:
  "google_search (scripted f s (Inr acme_page)) ada (PStr ''Acme Corp'') = Inr ''[{\"title\": \"Acme\"}]''"
  by (simp add: google_search_def search_try_def scripted_def acme_page_def)

lemma acme_decode:
  "decode_args (scripted f s p) acme_call = Inr (PStr ''Acme Corp'')"
  by (simp add: decode_args_def scripted_def acme_call_def toy_loads_def)

lemma hi_messages:
  "build_messages ada (PStr ''hi'') [] = Inr [system_msg ada, user_msg (PStr ''hi'')]"
  by (simp add: build_messages_def)

text \<open>Two searches around a call of an unregistered tool: two tool messages, both for \<^verbatim>\<open>c1\<close>.\<close>

theorem tool_results_follow_requests_witness:
  "build_messages ada (PStr ''hi'') [] = Inr [system_msg ada, user_msg (PStr ''hi'')] \<and>
   requested (asking [acme_call, weather_call, acme_call]) \<noteq> [] \<and>
   list_all (decodable (scripted (Inr [asking [acme_call, weather_call, acme_call]])
       (Inr [saying ''Acme is...'']) (Inr acme_page)))
     (filter is_search (requested (asking [acme_call, weather_call, acme_call]))) \<and>
   (\<exists>new qs.
      snd (chat (scripted (Inr [asking [acme_call, weather_call, acme_call]])
             (Inr [saying ''Acme is...'']) (Inr acme_page)) ada (PStr ''hi'') []) =
        Completion (first_request ada [system_msg ada, user_msg (PStr ''hi'')]) # map Search qs @
          [Completion (second_request ada ([system_msg ada, user_msg (PStr ''hi'')] @
             [Obj_msg (asking [acme_call, weather_call, acme_call])] @ new))] \<and>
      map tool_call_id_of new = [Some (PStr ''c1''), Some (PStr ''c1'')])"
proof -
  let ?msg = "asking [acme_call, weather_call, acme_call]"
  let ?ev = "scripted (Inr [?msg]) (Inr [saying ''Acme is...'']) (Inr acme_page)"
  let ?ms = "[system_msg ada, user_msg (PStr ''hi'')]"
  have c: "completions_create ?ev (first_request ada ?ms) = Inr [?msg]"
    by (simp add: scripted_def first_request_def)
  have r: "requested ?msg = [acme_call, weather_call, acme_call]"
    by (simp add: requested_def asking_def)
  have f: "filter is_search (requested ?msg) = [acme_call, acme_call]"
    unfolding r by (simp add: is_search_def acme_call_def weather_call_def)
  have n: "requested ?msg \<noteq> []" by (simp add: r)
  have d: "list_all (decodable ?ev) (filter is_search (requested ?msg))"
    by (simp add: f decodable_def acme_decode)
  from tool_results_follow_requests [OF hi_messages c n d] obtain new qs where
    "snd (chat ?ev ada (PStr ''hi'') []) =
        Completion (first_request ada ?ms) # map Search qs @
          [Completion (second_request ada (?ms @ [Obj_msg ?msg] @ new))]"
    "map tool_call_id_of new = map (\<lambda>tc. Some (PStr (tc_id tc))) (filter is_search (requested ?msg))"
    by blast
  then have "\<exists>new qs. snd (chat ?ev ada (PStr ''hi'') []) =
        Completion (first_request ada ?ms) # map Search qs @
          [Completion (second_request ada (?ms @ [Obj_msg ?msg] @ new))] \<and>
        map tool_call_id_of new = [Some (PStr ''c1''), Some (PStr ''c1'')]"
    unfolding f by (auto simp: acme_call_def)
  with hi_messages n d show ?thesis by blast
qed

text \<open>
  C1 as stated fails when the one requested tool is not registered: the second request
  goes out over a conversation without any tool message, for one request.
\<close>

theorem unknown_tool_gets_no_result:
  "requested (asking [weather_call]) = [weather_call] \<and>
   chat (scripted (Inr [asking [weather_call]]) (Inr [saying ''done'']) (Inl (Raised ''unused'')))
     ada (PStr ''hi'') [] =
     (Inr (Some ''done''),
      [Completion (first_request ada [system_msg ada, user_msg (PStr ''hi'')]),
       Completion (second_request ada
         [system_msg ada, user_msg (PStr ''hi''), Obj_msg (asking [weather_call])])]) \<and>
   filter is_tool_result
     [system_msg ada, user_msg (PStr ''hi''), Obj_msg (asking [weather_call])] = []"
proof -
  let ?ev = "scripted (Inr [asking [weather_call]]) (Inr [saying ''done'']) (Inl (Raised ''unused''))"
  let ?ms = "[system_msg ada, user_msg (PStr ''hi'')]"
  have r: "requested (asking [weather_call]) = [weather_call]"
    by (simp add: requested_def asking_def)
  have c: "completions_create ?ev (first_request ada ?ms) = Inr [asking [weather_call]]"
    by (simp add: scripted_def first_request_def)
  let ?out = "[system_msg ada, user_msg (PStr ''hi''), Obj_msg (asking [weather_call])]"
  have c2: "completions_create ?ev (second_request ada ?out) = Inr [saying ''done'']"
    by (simp add: scripted_def second_request_def)
  have l: "tool_loop ?ev ada [weather_call] ?out [Completion (first_request ada ?ms)] =
           (Inr ?out, [Completion (first_request ada ?ms)])"
    by (simp add: weather_call_def)
  have "chat ?ev ada (PStr ''hi'') [] =
     (Inr (Some ''done''),
      [Completion (first_request ada ?ms), Completion (second_request ada ?out)])"
    by (simp add: chat_with_tool_calls [OF hi_messages c] r l c2 del: tool_loop.simps)
       (simp add: saying_def)
  moreover have "filter is_tool_result ?out = []"
    by (simp add: is_tool_result_def system_msg_def user_msg_def)
  ultimately show ?thesis using r by simp
qed

text \<open>
  C2, as the code has it. A request whose tool name is not \<^verbatim>\<open>google_search\<close> is passed
  over: wherever it stands in the list, the loop ends with the same conversation, the same
  searches and the same outcome as without it. It produces no message, it does not fail
  the turn, and the requests after it are dispatched.
\<close>

theorem unknown_tool_is_skipped:
  assumes "fn_name tc \<noteq> ''google_search''"
  shows "tool_loop ev cfg (pre @ tc # post) ms evs = tool_loop ev cfg (pre @ post) ms evs"
  using assms by (simp add: tool_loop_skips is_search_def)

text \<open>An unregistered call between two searches.\<close>

theorem unknown_tool_is_skipped_witness:
  "fn_name weather_call \<noteq> ''google_search'' \<and>
   tool_loop (scripted (Inl (Raised ''unused'')) (Inl (Raised ''unused'')) (Inr acme_page)) ada
     ([acme_call] @ weather_call # [acme_call]) [] [] =
     (Inr [tool_msg ''c1'' ''[{\"title\": \"Acme\"}]'', tool_msg ''c1'' ''[{\"title\": \"Acme\"}]''],
      [Search (PStr ''Acme Corp''), Search (PStr ''Acme Corp'')])"
proof -
  let ?ev = "scripted (Inl (Raised ''unused'')) (Inl (Raised ''unused'')) (Inr acme_page)"
  have w: "fn_name weather_call \<noteq> ''google_search''"
    by (simp add: weather_call_def)
  have "tool_loop ?ev ada ([acme_call] @ [acme_call]) [] [] =
     (Inr [tool_msg ''c1'' ''[{\"title\": \"Acme\"}]'', tool_msg ''c1'' ''[{\"title\": \"Acme\"}]''],
      [Search (PStr ''Acme Corp''), Search (PStr ''Acme Corp'')])"
    by (simp add: acme_decode acme_search) (simp add: acme_call_def)
  with unknown_tool_is_skipped [OF w, of ?ev ada "[acme_call]" "[acme_call]" "[]" "[]"] w
  show ?thesis by simp
qed

text \<open>
  C2 as stated fails: for the unregistered call \<^verbatim>\<open>c0\<close> the conversation of the second
  request holds no tool message, neither one that says the tool is unknown nor any other,
  while the search requested after it is answered.
\<close>

theorem unknown_tool_leaves_no_message:
  "chat (scripted (Inr [asking [weather_call, acme_call]]) (Inr [saying ''done'']) (Inr acme_page))
     ada (PStr ''hi'') [] =
     (Inr (Some ''done''),
      [Completion (first_request ada [system_msg ada, user_msg (PStr ''hi'')]),
       Search (PStr ''Acme Corp''),
       Completion (second_request ada
         [system_msg ada, user_msg (PStr ''hi''), Obj_msg (asking [weather_call, acme_call]),
          tool_msg ''c1'' ''[{\"title\": \"Acme\"}]''])]) \<and>
   tc_id weather_call = ''c0'' \<and>
   filter (answers_id ''c0'')
     [system_msg ada, user_msg (PStr ''hi''), Obj_msg (asking [weather_call, acme_call]),
      tool_msg ''c1'' ''[{\"title\": \"Acme\"}]''] = []"
proof -
  let ?msg = "asking [weather_call, acme_call]"
  let ?ev = "scripted (Inr [?msg]) (Inr [saying ''done'']) (Inr acme_page)"
  let ?ms = "[system_msg ada, user_msg (PStr ''hi'')]"
  let ?mid = "[system_msg ada, user_msg (PStr ''hi''), Obj_msg ?msg]"
  let ?out = "[system_msg ada, user_msg (PStr ''hi''), Obj_msg ?msg,
               tool_msg ''c1'' ''[{\"title\": \"Acme\"}]'']"
  have r: "requested ?msg = [weather_call, acme_call]"
    by (simp add: requested_def asking_def)
  have c: "completions_create ?ev (first_request ada ?ms) = Inr [?msg]"
    by (simp add: scripted_def first_request_def)
  have c2: "completions_create ?ev (second_request ada ?out) = Inr [saying ''done'']"
    by (simp add: scripted_def second_request_def)
  have l: "tool_loop ?ev ada [weather_call, acme_call] ?mid
             [Completion (first_request ada ?ms)] =
           (Inr ?out, [Completion (first_request ada ?ms), Search (PStr ''Acme Corp'')])"
    by (simp add: acme_decode acme_search) (simp add: weather_call_def acme_call_def)
  have "chat ?ev ada (PStr ''hi'') [] =
     (Inr (Some ''done''),
      [Completion (first_request ada ?ms), Search (PStr ''Acme Corp''),
       Completion (second_request ada ?out)])"
    by (simp add: chat_with_tool_calls [OF hi_messages c] r l c2 del: tool_loop.simps)
       (simp add: saying_def)
  moreover have "filter (answers_id ''c0'') ?out = []"
    by (simp add: answers_id_def is_tool_result_def system_msg_def user_msg_def tool_msg_def)
  moreover have "tc_id weather_call = ''c0''" by (simp add: weather_call_def)
  ultimately show ?thesis by simp
qed



text \<open>
  C3. Once the conversation is built, \<^verbatim>\<open>chat\<close> always returns a value. An exception of
  the first completion call, of \<^verbatim>\<open>json.loads\<close> on the arguments of a call of
  \<^verbatim>\<open>google_search\<close> that the loop reaches, or of the second completion call, comes back as
  the text \<^verbatim>\<open>System Error: \<close> followed by the text of the exception.
\<close>

theorem faults_become_replies:
  assumes "build_messages cfg message history = Inr messages"
  shows "(\<exists>reply. fst (chat ev cfg message history) = Inr reply) \<and>
    (completions_create ev (first_request cfg messages) = Inl e \<longrightarrow>
       fst (chat ev cfg message history) = Inr (Some (''System Error: '' @ exn_str ev e))) \<and>
    (completions_create ev (first_request cfg messages) = Inr (msg # others) \<longrightarrow>
     requested msg = pre @ tc # post \<longrightarrow>
     list_all (decodable ev) (filter is_search pre) \<longrightarrow>
     fn_name tc = ''google_search'' \<longrightarrow>
     json_loads ev (fn_arguments tc) = Inl e \<longrightarrow>
       fst (chat ev cfg message history) = Inr (Some (''System Error: '' @ exn_str ev e))) \<and>
    (completions_create ev (first_request cfg messages) = Inr (msg # others) \<longrightarrow>
     requested msg \<noteq> [] \<longrightarrow>
     fst (tool_loop ev cfg (requested msg) (messages @ [Obj_msg msg])
            [Completion (first_request cfg messages)]) = Inr messages' \<longrightarrow>
     completions_create ev (second_request cfg messages') = Inl e \<longrightarrow>
       fst (chat ev cfg message history) = Inr (Some (''System Error: '' @ exn_str ev e)))"
proof (intro conjI impI)
  show "\<exists>reply. fst (chat ev cfg message history) = Inr reply"
    using assms by (simp add: chat_def split: prod.split sum.split)
next
  assume "completions_create ev (first_request cfg messages) = Inl e"
  with assms show "fst (chat ev cfg message history) = Inr (Some (''System Error: '' @ exn_str ev e))"
    by (simp add: chat_def chat_try_def)
next
  assume first: "completions_create ev (first_request cfg messages) = Inr (msg # others)"
    and req: "requested msg = pre @ tc # post"
    and pre: "list_all (decodable ev) (filter is_search pre)"
    and name: "fn_name tc = ''google_search''"
    and bad: "json_loads ev (fn_arguments tc) = Inl e"
  let ?first = "Completion (first_request cfg messages)"
  from tool_loop_completes [OF pre, of cfg "messages @ [Obj_msg msg]" "[?first]"]
  obtain new qs where
    "tool_loop ev cfg pre (messages @ [Obj_msg msg]) [?first] =
       (Inr ((messages @ [Obj_msg msg]) @ new), [?first] @ map Search qs)"
    by blast
  moreover have "tool_loop ev cfg (tc # post) ((messages @ [Obj_msg msg]) @ new) ([?first] @ map Search qs) =
      (Inl e, [?first] @ map Search qs)"
    using name bad by (simp add: decode_args_def)
  ultimately have "tool_loop ev cfg (requested msg) (messages @ [Obj_msg msg]) [?first] =
      (Inl e, [?first] @ map Search qs)"
    unfolding req tool_loop_append by simp
  moreover have "requested msg \<noteq> []" using req by simp
  ultimately show "fst (chat ev cfg message history) = Inr (Some (''System Error: '' @ exn_str ev e))"
    using chat_with_tool_calls [OF assms first] by simp
next
  assume first: "completions_create ev (first_request cfg messages) = Inr (msg # others)"
    and ne: "requested msg \<noteq> []"
    and loop: "fst (tool_loop ev cfg (requested msg) (messages @ [Obj_msg msg])
            [Completion (first_request cfg messages)]) = Inr messages'"
    and bad: "completions_create ev (second_request cfg messages') = Inl e"
  from loop obtain evs where "tool_loop ev cfg (requested msg) (messages @ [Obj_msg msg])
            [Completion (first_request cfg messages)] = (Inr messages', evs)"
    by (cases "tool_loop ev cfg (requested msg) (messages @ [Obj_msg msg])
            [Completion (first_request cfg messages)]") simp
  with bad show "fst (chat ev cfg message history) = Inr (Some (''System Error: '' @ exn_str ev e))"
    using chat_with_tool_calls [OF assms first ne] by simp
qed

text \<open>A timeout of the first call, arguments that are not JSON, a timeout of the second call.\<close>

theorem faults_become_replies_witness:
  "fst (chat (scripted (Inl (Raised ''Request timed out.'')) (Inl (Raised ''unused'')) (Inr acme_page))
          ada (PStr ''hi'') []) = Inr (Some ''System Error: Request timed out.'') \<and>
   fst (chat (scripted (Inr [asking [acme_call, broken_call]]) (Inr [saying ''done'']) (Inr acme_page))
          ada (PStr ''hi'') []) = Inr (Some ''System Error: Expecting value: line 1 column 1 (char 0)'') \<and>
   fst (chat (scripted (Inr [asking [acme_call]]) (Inl (Raised ''Request timed out.'')) (Inr acme_page))
          ada (PStr ''hi'') []) = Inr (Some ''System Error: Request timed out.'')"
proof -
  let ?ms = "[system_msg ada, user_msg (PStr ''hi'')]"
  let ?a = "scripted (Inl (Raised ''Request timed out.'')) (Inl (Raised ''unused'')) (Inr acme_page)"
  let ?b = "scripted (Inr [asking [acme_call, broken_call]]) (Inr [saying ''done'']) (Inr acme_page)"
  let ?c = "scripted (Inr [asking [acme_call]]) (Inl (Raised ''Request timed out.'')) (Inr acme_page)"
  let ?out = "[system_msg ada, user_msg (PStr ''hi''), Obj_msg (asking [acme_call]),
               tool_msg ''c1'' ''[{\"title\": \"Acme\"}]'']"
  have a1: "completions_create ?a (first_request ada ?ms) = Inl (Raised ''Request timed out.'')"
    by (simp add: scripted_def first_request_def)
  have a: "fst (chat ?a ada (PStr ''hi'') []) = Inr (Some ''System Error: Request timed out.'')"
    using faults_become_replies [OF hi_messages, of ?a "Raised ''Request timed out.''"] a1
    by (simp add: scripted_def)
  have b1: "completions_create ?b (first_request ada ?ms) = Inr (asking [acme_call, broken_call] # [])"
    by (simp add: scripted_def first_request_def)
  have b2: "requested (asking [acme_call, broken_call]) = [acme_call] @ broken_call # []"
    by (simp add: requested_def asking_def)
  have b3: "list_all (decodable ?b) (filter is_search [acme_call])"
    by (simp add: decodable_def acme_decode)
  have b4: "fn_name broken_call = ''google_search''"
    by (simp add: broken_call_def)
  have b5: "json_loads ?b (fn_arguments broken_call) =
              Inl (Raised ''Expecting value: line 1 column 1 (char 0)'')"
    by (simp add: scripted_def broken_call_def toy_loads_def)
  have b: "fst (chat ?b ada (PStr ''hi'') []) =
             Inr (Some ''System Error: Expecting value: line 1 column 1 (char 0)'')"
    using faults_become_replies [OF hi_messages, of ?b
        "Raised ''Expecting value: line 1 column 1 (char 0)''" "asking [acme_call, broken_call]" "[]"
        "[acme_call]" broken_call "[]"] b1 b2 b3 b4 b5
    by (simp add: scripted_def)
  have c1: "completions_create ?c (first_request ada ?ms) = Inr (asking [acme_call] # [])"
    by (simp add: scripted_def first_request_def)
  have c2: "requested (asking [acme_call]) = [acme_call]"
    by (simp add: requested_def asking_def)
  have c3: "fst (tool_loop ?c ada (requested (asking [acme_call]))
              (?ms @ [Obj_msg (asking [acme_call])]) [Completion (first_request ada ?ms)]) = Inr ?out"
    unfolding c2 by (simp add: acme_decode acme_search) (simp add: acme_call_def)
  have c4: "completions_create ?c (second_request ada ?out) = Inl (Raised ''Request timed out.'')"
    by (simp add: scripted_def second_request_def)
  have c5: "requested (asking [acme_call]) \<noteq> []" by (simp add: c2)
  have c: "fst (chat ?c ada (PStr ''hi'') []) = Inr (Some ''System Error: Request timed out.'')"
    using faults_become_replies [OF hi_messages, of ?c "Raised ''Request timed out.''"
        "asking [acme_call]" "[]" _ _ _ ?out] c1 c3 c4 c5
    by (simp add: scripted_def)
  from a b c show ?thesis by blast
qed

text \<open>
  The loop in full. When the arguments of every request for a search decode, it runs the
  searches for the decoded queries in order and appends their tool messages. Otherwise it
  does so up to the first request whose arguments do not decode, and ends with the
  exception of that request.
\<close>

lemma tool_loop_searches:
  assumes "list_all (decodable ev) (filter is_search tcs)"
  shows "\<exists>new qs. tool_loop ev cfg tcs ms evs = (Inr (ms @ new), evs @ map Search qs) \<and>
           list_all2 (answers ev cfg) (filter is_search tcs) new \<and>
           map (decode_args ev) (filter is_search tcs) = map Inr qs"
  using assms
proof (induction tcs arbitrary: ms evs)
  case Nil
  then show ?case by simp
next
  case (Cons tc tcs)
  show ?case
  proof (cases "is_search tc")
    case False
    with Cons show ?thesis by (simp add: is_search_def)
  next
    case True
    with Cons.prems obtain q where q: "decode_args ev tc = Inr q"
      by (auto simp: decodable_def split: sum.splits)
    obtain res where res: "google_search ev cfg q = Inr res"
      using google_search_returns by blast
    from Cons.prems True have "list_all (decodable ev) (filter is_search tcs)" by simp
    from Cons.IH [OF this, of "ms @ [tool_msg (tc_id tc) res]" "evs @ [Search q]"]
    obtain new qs where
      run: "tool_loop ev cfg tcs (ms @ [tool_msg (tc_id tc) res]) (evs @ [Search q]) =
              (Inr ((ms @ [tool_msg (tc_id tc) res]) @ new), (evs @ [Search q]) @ map Search qs)"
      and ans: "list_all2 (answers ev cfg) (filter is_search tcs) new"
      and dec: "map (decode_args ev) (filter is_search tcs) = map Inr qs"
      by blast
    have here: "answers ev cfg tc (tool_msg (tc_id tc) res)"
      by (simp add: answers_def q res)
    have "tool_loop ev cfg (tc # tcs) ms evs =
            (Inr (ms @ (tool_msg (tc_id tc) res # new)), evs @ map Search (q # qs))"
      using True q res run by (simp add: is_search_def)
    moreover have "list_all2 (answers ev cfg) (filter is_search (tc # tcs)) (tool_msg (tc_id tc) res # new)"
      using True here ans by simp
    moreover have "map (decode_args ev) (filter is_search (tc # tcs)) = map Inr (q # qs)"
      using True q dec by simp
    ultimately show ?thesis by blast
  qed
qed

lemma tool_loop_stops:
  assumes "\<not> list_all (decodable ev) (filter is_search tcs)"
  shows "\<exists>pre tc post e qs.
           tcs = pre @ tc # post \<and> is_search tc \<and> decode_args ev tc = Inl e \<and>
           list_all (decodable ev) (filter is_search pre) \<and>
           map (decode_args ev) (filter is_search pre) = map Inr qs \<and>
           tool_loop ev cfg tcs ms evs = (Inl e, evs @ map Search qs)"
proof -
  from assms have "\<exists>tc \<in> set tcs. is_search tc \<and> \<not> decodable ev tc"
    by (auto simp: list_all_iff)
  then obtain pre tc post where split: "tcs = pre @ tc # post"
    and here: "is_search tc \<and> \<not> decodable ev tc"
    and before: "\<forall>x \<in> set pre. \<not> (is_search x \<and> \<not> decodable ev x)"
    by (auto dest!: split_list_first_prop)
  from here obtain e where e: "decode_args ev tc = Inl e"
    by (auto simp: decodable_def split: sum.splits)
  from before have pre: "list_all (decodable ev) (filter is_search pre)"
    by (auto simp: list_all_iff)
  from tool_loop_searches [OF pre, of cfg ms evs] obtain new qs where
    run: "tool_loop ev cfg pre ms evs = (Inr (ms @ new), evs @ map Search qs)"
    and dec: "map (decode_args ev) (filter is_search pre) = map Inr qs"
    by blast
  have "tool_loop ev cfg (tc # post) (ms @ new) (evs @ map Search qs) = (Inl e, evs @ map Search qs)"
    using here e by (simp add: is_search_def)
  with run have "tool_loop ev cfg tcs ms evs = (Inl e, evs @ map Search qs)"
    unfolding split tool_loop_append by simp
  with split here e pre dec show ?thesis by blast
qed

text \<open>
  C8, as the code has it. In a turn whose first completion asks for tools there is one
  round of dispatch and no more. When the arguments of every request for
  \<^verbatim>\<open>google_search\<close> decode, the events are the first request, the searches for the
  decoded queries in the order of the requests, and then the second completion request,
  without tools, over the conversation extended by the assistant message and the tool
  message of each search; nothing follows it, and the content of its first choice is the
  reply whatever tool calls that completion carries. When the arguments of some request
  do not decode, the turn ends at the first such request: the searches before it have
  run, the reply is the error text, and no second request is issued.
\<close>

theorem one_dispatch_round:
  assumes "build_messages cfg message history = Inr messages"
    and "completions_create ev (first_request cfg messages) = Inr (msg # others)"
    and "requested msg \<noteq> []"
  shows
    "if list_all (decodable ev) (filter is_search (requested msg))
     then \<exists>new qs.
            map (decode_args ev) (filter is_search (requested msg)) = map Inr qs \<and>
            list_all2 (answers ev cfg) (filter is_search (requested msg)) new \<and>
            snd (chat ev cfg message history) =
              Completion (first_request cfg messages) # map Search qs @
                [Completion \<lparr>req_model = MODEL_NAME cfg,
                             req_messages = messages @ [Obj_msg msg] @ new,
                             req_tools = None\<rparr>] \<and>
            (\<forall>final rest.
               completions_create ev \<lparr>req_model = MODEL_NAME cfg,
                                      req_messages = messages @ [Obj_msg msg] @ new,
                                      req_tools = None\<rparr> = Inr (final # rest) \<longrightarrow>
               fst (chat ev cfg message history) = Inr (content final))
     else \<exists>pre tc post e qs.
            requested msg = pre @ tc # post \<and> is_search tc \<and> decode_args ev tc = Inl e \<and>
            list_all (decodable ev) (filter is_search pre) \<and>
            map (decode_args ev) (filter is_search pre) = map Inr qs \<and>
            chat ev cfg message history =
              (Inr (Some (''System Error: '' @ exn_str ev e)),
               Completion (first_request cfg messages) # map Search qs)"
proof (cases "list_all (decodable ev) (filter is_search (requested msg))")
  case True
  let ?first = "Completion (first_request cfg messages)"
  from tool_loop_searches [OF True, of cfg "messages @ [Obj_msg msg]" "[?first]"]
  obtain new qs where
    run: "tool_loop ev cfg (requested msg) (messages @ [Obj_msg msg]) [?first] =
            (Inr ((messages @ [Obj_msg msg]) @ new), [?first] @ map Search qs)"
    and ans: "list_all2 (answers ev cfg) (filter is_search (requested msg)) new"
    and dec: "map (decode_args ev) (filter is_search (requested msg)) = map Inr qs"
    by blast
  have evs: "snd (chat ev cfg message history) =
      ?first # map Search qs @ [Completion (second_request cfg (messages @ [Obj_msg msg] @ new))]"
    using run by (simp add: chat_with_tool_calls [OF assms] split: sum.split list.split)
  have reply: "\<forall>final rest.
      completions_create ev (second_request cfg (messages @ [Obj_msg msg] @ new)) = Inr (final # rest) \<longrightarrow>
      fst (chat ev cfg message history) = Inr (content final)"
    using run by (simp add: chat_with_tool_calls [OF assms])
  from dec ans evs reply have "\<exists>new qs.
            map (decode_args ev) (filter is_search (requested msg)) = map Inr qs \<and>
            list_all2 (answers ev cfg) (filter is_search (requested msg)) new \<and>
            snd (chat ev cfg message history) =
              ?first # map Search qs @
                [Completion (second_request cfg (messages @ [Obj_msg msg] @ new))] \<and>
            (\<forall>final rest.
               completions_create ev (second_request cfg (messages @ [Obj_msg msg] @ new)) =
                 Inr (final # rest) \<longrightarrow>
               fst (chat ev cfg message history) = Inr (content final))"
    by blast
  with True show ?thesis unfolding second_request_def by simp
next
  case False
  let ?first = "Completion (first_request cfg messages)"
  from tool_loop_stops [OF False, of cfg "messages @ [Obj_msg msg]" "[?first]"]
  obtain pre tc post e qs where
    parts: "requested msg = pre @ tc # post" "is_search tc" "decode_args ev tc = Inl e"
      "list_all (decodable ev) (filter is_search pre)"
      "map (decode_args ev) (filter is_search pre) = map Inr qs"
    and run: "tool_loop ev cfg (requested msg) (messages @ [Obj_msg msg]) [?first] =
                (Inl e, [?first] @ map Search qs)"
    by blast
  from run have "chat ev cfg message history =
      (Inr (Some (''System Error: '' @ exn_str ev e)), ?first # map Search qs)"
    by (simp add: chat_with_tool_calls [OF assms])
  with parts have "\<exists>pre tc post e qs.
            requested msg = pre @ tc # post \<and> is_search tc \<and> decode_args ev tc = Inl e \<and>
            list_all (decodable ev) (filter is_search pre) \<and>
            map (decode_args ev) (filter is_search pre) = map Inr qs \<and>
            chat ev cfg message history =
              (Inr (Some (''System Error: '' @ exn_str ev e)), ?first # map Search qs)"
    by blast
  with False show ?thesis by simp
qed

text \<open>A request for a search whose arguments are not JSON.\<close>

lemma broken_decode:
  "decode_args (scripted f s p) broken_call = Inl (Raised ''Expecting value: line 1 column 1 (char 0)'')"
  by (simp add: decode_args_def scripted_def broken_call_def toy_loads_def)

text \<open>
  C8 as stated fails when the arguments of the requested search do not decode: the first
  completion has asked for a tool, and the turn ends with the error text after the first
  request, without a second completion request.
\<close>

theorem undecodable_arguments_end_the_turn:
  "requested (asking [broken_call]) = [broken_call] \<and>
   chat (scripted (Inr [asking [broken_call]]) (Inr [saying ''done'']) (Inr acme_page))
     ada (PStr ''hi'') [] =
     (Inr (Some ''System Error: Expecting value: line 1 column 1 (char 0)''),
      [Completion (first_request ada [system_msg ada, user_msg (PStr ''hi'')])])"
proof -
  let ?ev = "scripted (Inr [asking [broken_call]]) (Inr [saying ''done'']) (Inr acme_page)"
  let ?ms = "[system_msg ada, user_msg (PStr ''hi'')]"
  let ?mid = "[system_msg ada, user_msg (PStr ''hi''), Obj_msg (asking [broken_call])]"
  have r: "requested (asking [broken_call]) = [broken_call]"
    by (simp add: requested_def asking_def)
  have c: "completions_create ?ev (first_request ada ?ms) = Inr [asking [broken_call]]"
    by (simp add: scripted_def first_request_def)
  have n: "fn_name broken_call = ''google_search''"
    by (simp add: broken_call_def)
  have l: "tool_loop ?ev ada [broken_call] ?mid [Completion (first_request ada ?ms)] =
             (Inl (Raised ''Expecting value: line 1 column 1 (char 0)''),
              [Completion (first_request ada ?ms)])"
    by (simp add: n broken_decode)
  have "chat ?ev ada (PStr ''hi'') [] =
     (Inr (Some (''System Error: '' @ exn_str ?ev (Raised ''Expecting value: line 1 column 1 (char 0)''))),
      [Completion (first_request ada ?ms)])"
    by (simp add: chat_with_tool_calls [OF hi_messages c] r l del: tool_loop.simps)
  then show ?thesis using r by (simp add: scripted_def)
qed

text \<open>
  A backend that asks for the same search again in its second completion: one search
  runs and the turn ends with the second request. And a response whose second request for
  a search does not decode: the first search has run and no second request is issued.
\<close>

theorem one_dispatch_round_witness:
  "build_messages ada (PStr ''hi'') [] = Inr [system_msg ada, user_msg (PStr ''hi'')] \<and>
   requested (asking [acme_call]) \<noteq> [] \<and>
   list_all (decodable (scripted (Inr [asking [acme_call]]) (Inr [asking [acme_call]]) (Inr acme_page)))
     (filter is_search (requested (asking [acme_call]))) \<and>
   chat (scripted (Inr [asking [acme_call]]) (Inr [asking [acme_call]]) (Inr acme_page))
     ada (PStr ''hi'') [] =
     (Inr None,
      [Completion (first_request ada [system_msg ada, user_msg (PStr ''hi'')]),
       Search (PStr ''Acme Corp''),
       Completion (second_request ada
         [system_msg ada, user_msg (PStr ''hi''), Obj_msg (asking [acme_call]),
          tool_msg ''c1'' ''[{\"title\": \"Acme\"}]''])]) \<and>
   \<not> list_all (decodable (scripted (Inr [asking [acme_call, broken_call, acme_call]])
          (Inr [saying ''done'']) (Inr acme_page)))
     (filter is_search (requested (asking [acme_call, broken_call, acme_call]))) \<and>
   chat (scripted (Inr [asking [acme_call, broken_call, acme_call]]) (Inr [saying ''done''])
          (Inr acme_page)) ada (PStr ''hi'') [] =
     (Inr (Some ''System Error: Expecting value: line 1 column 1 (char 0)''),
      [Completion (first_request ada [system_msg ada, user_msg (PStr ''hi'')]),
       Search (PStr ''Acme Corp'')])"
proof -
  let ?ms = "[system_msg ada, user_msg (PStr ''hi'')]"
  let ?first = "Completion (first_request ada ?ms)"
  let ?msg = "asking [acme_call]"
  let ?ev = "scripted (Inr [?msg]) (Inr [?msg]) (Inr acme_page)"
  let ?out = "[system_msg ada, user_msg (PStr ''hi''), Obj_msg ?msg,
               tool_msg ''c1'' ''[{\"title\": \"Acme\"}]'']"
  have c: "completions_create ?ev (first_request ada ?ms) = Inr [?msg]"
    by (simp add: scripted_def first_request_def)
  have r: "requested ?msg = [acme_call]"
    by (simp add: requested_def asking_def)
  have n: "requested ?msg \<noteq> []" by (simp add: r)
  have f: "filter is_search (requested ?msg) = [acme_call]"
    unfolding r by (simp add: is_search_def acme_call_def)
  have d: "list_all (decodable ?ev) (filter is_search (requested ?msg))"
    by (simp add: f decodable_def acme_decode)
  have ans: "\<And>m. answers ?ev ada acme_call m \<longleftrightarrow> m = tool_msg ''c1'' ''[{\"title\": \"Acme\"}]''"
    by (simp add: answers_def acme_decode acme_search) (simp add: acme_call_def)
  from one_dispatch_round [OF hi_messages c n] d obtain new qs where
    dec: "map (decode_args ?ev) (filter is_search (requested ?msg)) = map Inr qs"
    and res: "list_all2 (answers ?ev ada) (filter is_search (requested ?msg)) new"
    and evs: "snd (chat ?ev ada (PStr ''hi'') []) =
                ?first # map Search qs @
                  [Completion \<lparr>req_model = MODEL_NAME ada,
                               req_messages = ?ms @ [Obj_msg ?msg] @ new, req_tools = None\<rparr>]"
    and reply: "\<forall>final rest.
       completions_create ?ev \<lparr>req_model = MODEL_NAME ada,
                                req_messages = ?ms @ [Obj_msg ?msg] @ new, req_tools = None\<rparr> =
         Inr (final # rest) \<longrightarrow>
       fst (chat ?ev ada (PStr ''hi'') []) = Inr (content final)"
    by (simp only: if_True) blast
  from dec have qs: "qs = [PStr ''Acme Corp'']"
    unfolding f by (auto simp: acme_decode map_eq_Cons_conv)
  from res have new: "new = [tool_msg ''c1'' ''[{\"title\": \"Acme\"}]'']"
    unfolding f by (auto simp: list_all2_Cons1 ans)
  have c2: "completions_create ?ev \<lparr>req_model = MODEL_NAME ada,
              req_messages = ?ms @ [Obj_msg ?msg] @ new, req_tools = None\<rparr> = Inr (?msg # [])"
    by (simp add: scripted_def)
  from reply c2 have "fst (chat ?ev ada (PStr ''hi'') []) = Inr (content ?msg)"
    by blast
  then have one: "fst (chat ?ev ada (PStr ''hi'') []) = Inr None"
    by (simp add: asking_def)
  from evs have two: "snd (chat ?ev ada (PStr ''hi'') []) =
      [?first, Search (PStr ''Acme Corp''), Completion (second_request ada ?out)]"
    unfolding qs new by (simp add: second_request_def)
  from one two have a: "chat ?ev ada (PStr ''hi'') [] =
      (Inr None, [?first, Search (PStr ''Acme Corp''), Completion (second_request ada ?out)])"
    by (simp add: prod_eq_iff)
  let ?msg' = "asking [acme_call, broken_call, acme_call]"
  let ?ev' = "scripted (Inr [?msg']) (Inr [saying ''done'']) (Inr acme_page)"
  have c': "completions_create ?ev' (first_request ada ?ms) = Inr [?msg']"
    by (simp add: scripted_def first_request_def)
  have r': "requested ?msg' = [acme_call, broken_call, acme_call]"
    by (simp add: requested_def asking_def)
  have n': "requested ?msg' \<noteq> []" by (simp add: r')
  have f': "filter is_search (requested ?msg') = [acme_call, broken_call, acme_call]"
    unfolding r' by (simp add: is_search_def acme_call_def broken_call_def)
  have d': "\<not> list_all (decodable ?ev') (filter is_search (requested ?msg'))"
    by (simp add: f' decodable_def acme_decode broken_decode)
  from one_dispatch_round [OF hi_messages c' n'] d' obtain pre tc post e qs' where
    split: "requested ?msg' = pre @ tc # post"
    and bad: "decode_args ?ev' tc = Inl e"
    and good: "list_all (decodable ?ev') (filter is_search pre)"
    and dec': "map (decode_args ?ev') (filter is_search pre) = map Inr qs'"
    and out: "chat ?ev' ada (PStr ''hi'') [] =
                (Inr (Some (''System Error: '' @ exn_str ?ev' e)), ?first # map Search qs')"
    by (simp only: if_False) blast
  have acme_ok: "decode_args ?ev' acme_call = Inr (PStr ''Acme Corp'')" by (rule acme_decode)
  have broken_bad: "decode_args ?ev' broken_call = Inl (Raised ''Expecting value: line 1 column 1 (char 0)'')"
    by (rule broken_decode)
  have search: "is_search acme_call" "is_search broken_call"
    by (simp_all add: is_search_def acme_call_def broken_call_def)
  from split r' have shape: "[acme_call, broken_call, acme_call] = pre @ tc # post" by simp
  have pre: "pre = [acme_call] \<and> tc = broken_call"
  proof (cases pre)
    case Nil
    with shape have "tc = acme_call" by simp
    with bad acme_ok show ?thesis by simp
  next
    case (Cons x xs)
    with shape have x: "x = acme_call" and rest: "[broken_call, acme_call] = xs @ tc # post" by simp_all
    show ?thesis
    proof (cases xs)
      case Nil
      with rest Cons x show ?thesis by simp
    next
      case (Cons y ys)
      with rest have "y = broken_call" by simp
      with good \<open>pre = x # xs\<close> Cons x search broken_bad show ?thesis
        by (simp add: decodable_def)
    qed
  qed
  with bad broken_bad have e: "e = Raised ''Expecting value: line 1 column 1 (char 0)''" by simp
  from dec' pre search acme_ok have qs': "qs' = [PStr ''Acme Corp'']"
    by (auto simp: map_eq_Cons_conv)
  from out have b: "chat ?ev' ada (PStr ''hi'') [] =
      (Inr (Some ''System Error: Expecting value: line 1 column 1 (char 0)''),
       [?first, Search (PStr ''Acme Corp'')])"
    unfolding e qs' by (simp add: scripted_def)
  from hi_messages n d a d' b show ?thesis by blast
qed

end
